theory Spec2Isabelle
  imports
    Main
    "HOL-Library.Sublist"
    "HOL-Library.Multiset"
    "HOL-Library.Char_ord"
    "HOL-Library.List_Lexorder"
begin

section \<open>Go values used by the generators\<close>

text \<open>
  A Go slice is either \<open>nil\<close> or a backing sequence; both have a length and can be
  ranged over, but they are different values. \<open>append\<close> on a \<open>nil\<close> slice with nothing
  to append returns \<open>nil\<close>.
\<close>

datatype 'a slice = NilSlice | Slice "'a list"

fun elems :: "'a slice \<Rightarrow> 'a list" where
  "elems NilSlice = []"
| "elems (Slice xs) = xs"

fun append :: "'a slice \<Rightarrow> 'a list \<Rightarrow> 'a slice" where
  "append NilSlice ys = (if ys = [] then NilSlice else Slice ys)"
| "append (Slice xs) ys = Slice (xs @ ys)"

text \<open>
  A Go call either returns or panics. The panics that the modelled code can raise are
  listed; an \<open>error\<close> value handed to \<open>panic\<close> is carried along.
\<close>

datatype error = InvalidSizeFormat string | CouldNotParseInt string | NumErrorSyntax string | NumErrorRange string

datatype panic = PanicError error | AssignmentToEntryInNilMap | SliceBoundsOutOfRange

datatype 'a exec = Returns 'a | Panics panic

section \<open>policies: location files and their filters\<close>

text \<open>\<open>type LocationType int\<close> with the constants numbered by \<open>iota\<close>.\<close>

type_synonym LocationType = int

definition Internal :: LocationType where "Internal = 0"
definition External :: LocationType where "External = 1"
definition ExternalRedirect :: LocationType where "ExternalRedirect = 2"

record ServerFile =
  Name :: string
  Content :: string

record LocationFile =
  Name :: string
  Type :: LocationType
  Content :: string

type_synonym GenerateForServerResult = "ServerFile slice"
type_synonym GenerateForLocationResult = "LocationFile slice"

text \<open>The body of each filter: range over the files, appending those of the wanted type.\<close>

fun filterByType :: "LocationType \<Rightarrow> LocationFile list \<Rightarrow> LocationFile list \<Rightarrow> LocationFile list" where
  "filterByType t files [] = files"
| "filterByType t files (f # fs) =
     filterByType t (if Type f = t then files @ [f] else files) fs"

definition ForInternalLocation :: "GenerateForLocationResult \<Rightarrow> LocationFile slice" where
  "ForInternalLocation locFile = Slice (filterByType Internal [] (elems locFile))"

definition ForExternalLocation :: "GenerateForLocationResult \<Rightarrow> LocationFile slice" where
  "ForExternalLocation locFile = Slice (filterByType External [] (elems locFile))"

definition ForExternalRedirectLocation :: "GenerateForLocationResult \<Rightarrow> LocationFile slice" where
  "ForExternalRedirectLocation locFile = Slice (filterByType ExternalRedirect [] (elems locFile))"

section \<open>state: route precedence\<close>

text \<open>
  \<open>Route\<close> and the Kubernetes object metadata are declared outside the files at hand;
  the records hold what \<open>higherPriority\<close> reads of them: the match returned by
  \<open>GetMatch()\<close> with its header and query-parameter matches, and the source object's
  namespace, name and creation timestamp (an instant, compared by \<open>Equal\<close> and
  \<open>Before\<close>).
\<close>

record ObjectMeta =
  Namespace :: string
  Name :: string
  CreationTimestamp :: int

record Match =
  Headers :: "(string \<times> string) list"
  QueryParams :: "(string \<times> string) list"

record Route =
  Source :: ObjectMeta
  GetMatch :: Match

text \<open>
  Modelled from the spec: \<open>getResourceKey\<close> is not among the source files; the spec
  gives the resource identity key as the string \<open>namespace/name\<close>.
\<close>

definition getResourceKey :: "ObjectMeta \<Rightarrow> string" where
  "getResourceKey meta = Namespace meta @ ''/'' @ ObjectMeta.Name meta"

text \<open>Go compares strings bytewise, which is the lexicographic order on \<open>char list\<close>.\<close>

definition lessObjectMeta :: "ObjectMeta \<Rightarrow> ObjectMeta \<Rightarrow> bool" where
  "lessObjectMeta meta1 meta2 =
     (if CreationTimestamp meta1 = CreationTimestamp meta2
      then getResourceKey meta1 < getResourceKey meta2
      else CreationTimestamp meta1 < CreationTimestamp meta2)"

definition higherPriority :: "Route \<Rightarrow> Route \<Rightarrow> bool" where
  "higherPriority route1 route2 =
     (let match1 = GetMatch route1;
          match2 = GetMatch route2;
          l1 = length (Headers match1);
          l2 = length (Headers match2)
      in if l1 \<noteq> l2 then l1 > l2
         else
           let l1 = length (QueryParams match1);
               l2 = length (QueryParams match2)
           in if l1 \<noteq> l2 then l1 > l2
              else lessObjectMeta (Source route1) (Source route2))"

text \<open>
  \<open>sort.SliceStable\<close> belongs to the Go standard library. It is modelled by the
  library's insertion sort (\<open>insertionSort\<close>: each element in turn is swapped leftwards
  while it is less than its left neighbour), which is what the library runs on every
  block of up to 20 elements before merging blocks stably. The sorted prefix is kept
  reversed in \<open>done\<close>, so that the left neighbour is its head.
\<close>

fun insertLeft :: "('a \<Rightarrow> 'a \<Rightarrow> bool) \<Rightarrow> 'a \<Rightarrow> 'a list \<Rightarrow> 'a list" where
  "insertLeft lt x [] = [x]"
| "insertLeft lt x (y # ys) =
     (if lt x y then y # insertLeft lt x ys else x # y # ys)"

fun insertionSort :: "('a \<Rightarrow> 'a \<Rightarrow> bool) \<Rightarrow> 'a list \<Rightarrow> 'a list \<Rightarrow> 'a list" where
  "insertionSort lt done [] = rev done"
| "insertionSort lt done (x # xs) = insertionSort lt (insertLeft lt x done) xs"

definition SliceStable :: "('a \<Rightarrow> 'a \<Rightarrow> bool) \<Rightarrow> 'a list \<Rightarrow> 'a list" where
  "SliceStable lt x = insertionSort lt [] x"

text \<open>\<open>sortRoutes\<close> sorts in place; the model returns the sorted slice.\<close>

definition sortRoutes :: "Route list \<Rightarrow> Route list" where
  "sortRoutes routes = SliceStable higherPriority routes"

section \<open>clientsettings: size literals and their merge\<close>

text \<open>
  \<open>ngfAPI.Size\<close> is a string type. \<open>strconv.ParseInt(s, 10, 64)\<close> and \<open>strconv.Atoi\<close>
  belong to the Go standard library: an optional sign followed by at least one decimal
  digit, with a syntax error otherwise and a range error outside 64 bits.
  \<open>strings.ToLower\<close> is given on the ASCII letters.
\<close>

type_synonym Size = string

definition isDigitByte :: "char \<Rightarrow> bool" where
  "isDigitByte c = (CHR ''0'' \<le> c \<and> c \<le> CHR ''9'')"

definition decimal :: "string \<Rightarrow> nat" where
  "decimal ds = foldl (\<lambda>n c. 10 * n + (of_char c - 48)) 0 ds"

definition ParseInt :: "string \<Rightarrow> error + int" where
  "ParseInt s =
     (if s = [] then Inl (NumErrorSyntax s)
      else
        let neg = (hd s = CHR ''-'');
            body = (if hd s = CHR ''-'' \<or> hd s = CHR ''+'' then tl s else s)
        in if body = [] then Inl (NumErrorSyntax s)
           else if list_all isDigitByte body then
             let v = (if neg then - int (decimal body) else int (decimal body))
             in if v < - (2 ^ 63) \<or> 2 ^ 63 - 1 < v then Inl (NumErrorRange s) else Inr v
           else Inl (NumErrorSyntax s))"

definition Atoi :: "string \<Rightarrow> error + int" where
  "Atoi s = ParseInt s"

definition ToLower :: "string \<Rightarrow> string" where
  "ToLower s =
     map (\<lambda>c. if CHR ''A'' \<le> c \<and> c \<le> CHR ''Z'' then char_of (of_char c + (32::nat)) else c) s"

text \<open>
  \<open>regexp.MustCompile(`^(\d{1,4})(k|m|g)?$`).FindStringSubmatch\<close>: the whole match and
  the two groups when the string is one to four digits followed by nothing or by one unit
  letter, \<open>nil\<close> (no elements) otherwise. The digits group is the longest run of leading
  digits, since no unit letter is a digit.
\<close>

definition FindStringSubmatch :: "string \<Rightarrow> string list" where
  "FindStringSubmatch s =
     (let ds = takeWhile isDigitByte s;
          rest = dropWhile isDigitByte s
      in if 1 \<le> length ds \<and> length ds \<le> 4 \<and> rest \<in> set ['''', ''k'', ''m'', ''g'']
         then [s, ds, rest] else [])"

definition sizeMultipliers :: "string \<rightharpoonup> int" where
  "sizeMultipliers =
     [''b'' \<mapsto> 1, ''k'' \<mapsto> 1024, ''m'' \<mapsto> 1024 * 1024, ''g'' \<mapsto> 1024 * 1024 * 1024]"

definition parseSizeToBytes :: "Size \<Rightarrow> error + int" where
  "parseSizeToBytes s =
     (let matches = FindStringSubmatch s
      in if length matches < 3 then Inl (InvalidSizeFormat s)
         else
           case ParseInt (matches ! 1) of
             Inl err \<Rightarrow> Inl (CouldNotParseInt s)
           | Inr val \<Rightarrow>
               let unit = ToLower (matches ! 2);
                   unit = (if unit = '''' then ''b'' else unit)
               in Inr (val * (case sizeMultipliers unit of None \<Rightarrow> 0 | Some m \<Rightarrow> m)))"

text \<open>
  \<open>getMaxSize\<close> of the generator that parses both literals. It has no error result:
  a parse error is handed to \<open>panic\<close>.
\<close>

definition getMaxSize :: "Size \<Rightarrow> Size \<Rightarrow> Size exec" where
  "getMaxSize s1 s2 =
     (if s1 = '''' then Returns s2
      else if s2 = '''' then Returns s1
      else
        case parseSizeToBytes s1 of
          Inl err \<Rightarrow> Panics (PanicError err)
        | Inr s1Bytes \<Rightarrow>
            (case parseSizeToBytes s2 of
               Inl err \<Rightarrow> Panics (PanicError err)
             | Inr s2Bytes \<Rightarrow> if s1Bytes > s2Bytes then Returns s1 else Returns s2))"

text \<open>
  \<open>getMaxSize\<close> of the data-plane generator, which compares the unit letters and takes
  its second literal by pointer; it is named \<open>getMaxSize_byUnit\<close> here to tell the two
  apart. \<open>s[len(s)-1:]\<close> panics on the empty string.
\<close>

definition isDigit :: "string \<Rightarrow> bool" where
  "isDigit char = (case Atoi char of Inl err \<Rightarrow> False | Inr _ \<Rightarrow> True)"

definition getMaxSize_byUnit :: "Size \<Rightarrow> Size option \<Rightarrow> Size exec" where
  "getMaxSize_byUnit s1 s2 =
     (case s2 of
        None \<Rightarrow> Returns s1
      | Some s2v \<Rightarrow>
          if s1 = '''' then Returns s2v
          else if s2v = '''' then Panics SliceBoundsOutOfRange
          else
            let s1Unit = [last s1];
                s2Unit = [last s2v]
            in if isDigit s1Unit \<and> \<not> isDigit s2Unit then Returns s2v
               else if \<not> isDigit s1Unit \<and> isDigit s2Unit then Returns s1
               else if s1Unit = s2Unit then
                 (case Atoi (butlast s1) of
                    Inl err \<Rightarrow> Panics (PanicError err)
                  | Inr s1Int \<Rightarrow>
                      (case Atoi (butlast s2v) of
                         Inl err \<Rightarrow> Panics (PanicError err)
                       | Inr s2Int \<Rightarrow> if s1Int > s2Int then Returns s1 else Returns s2v))
               else if s1Unit = ''k'' then Returns s2v
               else if s1Unit = ''m'' then (if s2Unit = ''g'' then Returns s2v else Returns s1)
               else if s1Unit = ''g'' then Returns s1
               else Returns s1)"

text \<open>
  The grammar \<open>^\d{1,4}(k|m|g)?$\<close> read as a predicate on strings: for some \<open>n\<close> from 1
  to 4 the first \<open>n\<close> bytes are digits and what follows them is empty or one of the three
  unit letters.
\<close>

definition sizeGrammar :: "string \<Rightarrow> bool" where
  "sizeGrammar s \<longleftrightarrow>
     (\<exists>n \<in> set [1, 2, 3, 4].
        n \<le> length s \<and> list_all isDigitByte (take n s) \<and> drop n s \<in> set ['''', ''k'', ''m'', ''g''])"

section \<open>Properties of the location filters\<close>

lemma filterByType_filter:
  "filterByType t files fs = files @ filter (\<lambda>f. Type f = t) fs"
  by (induction fs arbitrary: files) simp_all

lemma elems_ForInternalLocation:
  "elems (ForInternalLocation r) = filter (\<lambda>f. Type f = Internal) (elems r)"
  by (simp add: ForInternalLocation_def filterByType_filter)

lemma elems_ForExternalLocation:
  "elems (ForExternalLocation r) = filter (\<lambda>f. Type f = External) (elems r)"
  by (simp add: ForExternalLocation_def filterByType_filter)

lemma elems_ForExternalRedirectLocation:
  "elems (ForExternalRedirectLocation r) = filter (\<lambda>f. Type f = ExternalRedirect) (elems r)"
  by (simp add: ForExternalRedirectLocation_def filterByType_filter)

lemma LocationType_constants_distinct:
  "Internal \<noteq> External" "Internal \<noteq> ExternalRedirect" "External \<noteq> ExternalRedirect"
  by (simp_all add: Internal_def External_def ExternalRedirect_def)

text \<open>
  C10. The three filters select the files by their type tag: the output of each filter is
  the input restricted to the files of that type, in the input's order (so it is a
  subsequence of the input); a file is in a filter's output iff it is in the input and has
  that type; and an input file whose type is one of the three constants is in the output
  of exactly one filter.
\<close>

theorem location_filters_partition:
  "elems (ForInternalLocation r) = filter (\<lambda>f. Type f = Internal) (elems r)
   \<and> elems (ForExternalLocation r) = filter (\<lambda>f. Type f = External) (elems r)
   \<and> elems (ForExternalRedirectLocation r) = filter (\<lambda>f. Type f = ExternalRedirect) (elems r)
   \<and> subseq (elems (ForInternalLocation r)) (elems r)
   \<and> subseq (elems (ForExternalLocation r)) (elems r)
   \<and> subseq (elems (ForExternalRedirectLocation r)) (elems r)
   \<and> (f \<in> set (elems (ForInternalLocation r)) \<longleftrightarrow> f \<in> set (elems r) \<and> Type f = Internal)
   \<and> (f \<in> set (elems (ForExternalLocation r)) \<longleftrightarrow> f \<in> set (elems r) \<and> Type f = External)
   \<and> (f \<in> set (elems (ForExternalRedirectLocation r))
        \<longleftrightarrow> f \<in> set (elems r) \<and> Type f = ExternalRedirect)
   \<and> (f \<in> set (elems r) \<and> Type f \<in> {Internal, External, ExternalRedirect} \<longrightarrow>
        (f \<in> set (elems (ForInternalLocation r))
           \<and> f \<notin> set (elems (ForExternalLocation r))
           \<and> f \<notin> set (elems (ForExternalRedirectLocation r)))
        \<or> (f \<notin> set (elems (ForInternalLocation r))
           \<and> f \<in> set (elems (ForExternalLocation r))
           \<and> f \<notin> set (elems (ForExternalRedirectLocation r)))
        \<or> (f \<notin> set (elems (ForInternalLocation r))
           \<and> f \<notin> set (elems (ForExternalLocation r))
           \<and> f \<in> set (elems (ForExternalRedirectLocation r))))"
proof -
  have sub: "\<And>P. subseq (filter P (elems r)) (elems r)"
    by simp
  show ?thesis
    using LocationType_constants_distinct
    by (auto simp add: elems_ForInternalLocation elems_ForExternalLocation
        elems_ForExternalRedirectLocation sub)
qed

theorem location_filters_partition_witness:
  "elems (ForInternalLocation (Slice
      [\<lparr>LocationFile.Name = ''a_int.conf'', Type = 0, Content = ''x''\<rparr>,
       \<lparr>LocationFile.Name = ''a_ext.conf'', Type = 1, Content = ''x''\<rparr>,
       \<lparr>LocationFile.Name = ''r.conf'', Type = 2, Content = ''y''\<rparr>,
       \<lparr>LocationFile.Name = ''odd.conf'', Type = 7, Content = ''z''\<rparr>]))
     = [\<lparr>LocationFile.Name = ''a_int.conf'', Type = 0, Content = ''x''\<rparr>]
   \<and> \<lparr>LocationFile.Name = ''a_ext.conf'', Type = 1, Content = ''x''\<rparr>
       \<in> set (elems (ForExternalLocation (Slice
      [\<lparr>LocationFile.Name = ''a_int.conf'', Type = 0, Content = ''x''\<rparr>,
       \<lparr>LocationFile.Name = ''a_ext.conf'', Type = 1, Content = ''x''\<rparr>,
       \<lparr>LocationFile.Name = ''r.conf'', Type = 2, Content = ''y''\<rparr>,
       \<lparr>LocationFile.Name = ''odd.conf'', Type = 7, Content = ''z''\<rparr>])))
   \<and> \<lparr>LocationFile.Name = ''a_ext.conf'', Type = 1, Content = ''x''\<rparr>
       \<notin> set (elems (ForExternalRedirectLocation (Slice
      [\<lparr>LocationFile.Name = ''a_int.conf'', Type = 0, Content = ''x''\<rparr>,
       \<lparr>LocationFile.Name = ''a_ext.conf'', Type = 1, Content = ''x''\<rparr>,
       \<lparr>LocationFile.Name = ''r.conf'', Type = 2, Content = ''y''\<rparr>,
       \<lparr>LocationFile.Name = ''odd.conf'', Type = 7, Content = ''z''\<rparr>])))"
  using location_filters_partition
    [of "Slice
      [\<lparr>LocationFile.Name = ''a_int.conf'', Type = 0, Content = ''x''\<rparr>,
       \<lparr>LocationFile.Name = ''a_ext.conf'', Type = 1, Content = ''x''\<rparr>,
       \<lparr>LocationFile.Name = ''r.conf'', Type = 2, Content = ''y''\<rparr>,
       \<lparr>LocationFile.Name = ''odd.conf'', Type = 7, Content = ''z''\<rparr>]"
     "\<lparr>LocationFile.Name = ''a_ext.conf'', Type = 1, Content = ''x''\<rparr>"]
  by (simp add: Internal_def External_def ExternalRedirect_def)

section \<open>Properties of the route precedence\<close>

subsection \<open>The insertion sort\<close>

lemma mset_insertLeft: "mset (insertLeft lt x ds) = add_mset x (mset ds)"
  by (induction ds) simp_all

lemma mset_insertionSort: "mset (insertionSort lt ds xs) = mset ds + mset xs"
  by (induction xs arbitrary: ds) (simp_all add: mset_insertLeft)

lemma set_insertLeft: "set (insertLeft lt x ds) = insert x (set ds)"
  by (induction ds) auto

lemma filter_insertLeft:
  assumes "\<And>u v. P u \<Longrightarrow> P v \<Longrightarrow> \<not> lt u v"
  shows "filter P (rev (insertLeft lt x ds)) = filter P (rev ds) @ filter P [x]"
  using assms by (induction ds) auto

lemma filter_insertionSort:
  assumes "\<And>u v. P u \<Longrightarrow> P v \<Longrightarrow> \<not> lt u v"
  shows "filter P (insertionSort lt ds xs) = filter P (rev ds) @ filter P xs"
  using assms
proof (induction xs arbitrary: ds)
  case Nil
  then show ?case by simp
next
  case (Cons x xs)
  have "filter P (insertionSort lt (insertLeft lt x ds) xs)
        = filter P (rev (insertLeft lt x ds)) @ filter P xs"
    using Cons by blast
  also have "\<dots> = (filter P (rev ds) @ filter P [x]) @ filter P xs"
    using filter_insertLeft[of P lt x ds] Cons.prems by simp
  finally show ?case by simp
qed

lemma sorted_insertLeft:
  assumes asym: "\<And>u v. lt u v \<Longrightarrow> \<not> lt v u"
    and negtrans: "\<And>u v w. \<not> lt u v \<Longrightarrow> \<not> lt v w \<Longrightarrow> \<not> lt u w"
    and "sorted_wrt (\<lambda>a b. \<not> lt a b) ds"
  shows "sorted_wrt (\<lambda>a b. \<not> lt a b) (insertLeft lt x ds)"
  using assms(3)
proof (induction ds)
  case Nil
  then show ?case by simp
next
  case (Cons y ys)
  show ?case
  proof (cases "lt x y")
    case True
    then show ?thesis
      using Cons asym by (auto simp add: set_insertLeft)
  next
    case False
    then show ?thesis
      using Cons negtrans by auto
  qed
qed

lemma sorted_insertionSort:
  assumes asym: "\<And>u v. lt u v \<Longrightarrow> \<not> lt v u"
    and negtrans: "\<And>u v w. \<not> lt u v \<Longrightarrow> \<not> lt v w \<Longrightarrow> \<not> lt u w"
    and "sorted_wrt (\<lambda>a b. \<not> lt a b) ds"
  shows "sorted_wrt (\<lambda>a b. \<not> lt b a) (insertionSort lt ds xs)"
  using assms(3)
proof (induction xs arbitrary: ds)
  case Nil
  then show ?case by (simp add: sorted_wrt_rev)
next
  case (Cons x xs)
  have "sorted_wrt (\<lambda>a b. \<not> lt a b) (insertLeft lt x ds)"
    using asym negtrans Cons.prems by (rule sorted_insertLeft)
  then have "sorted_wrt (\<lambda>a b. \<not> lt b a) (insertionSort lt (insertLeft lt x ds) xs)"
    by (rule Cons.IH)
  then show ?case by simp
qed

subsection \<open>The comparator\<close>

lemma lex4_asym:
  fixes h1 h2 q1 q2 :: nat and t1 t2 :: int and k1 k2 :: "'k::linorder"
  assumes "h1 > h2 \<or> (h1 = h2 \<and> (q1 > q2 \<or> (q1 = q2 \<and> (t1 < t2 \<or> (t1 = t2 \<and> k1 < k2)))))"
  shows "\<not> (h2 > h1 \<or> (h2 = h1 \<and> (q2 > q1 \<or> (q2 = q1 \<and> (t2 < t1 \<or> (t2 = t1 \<and> k2 < k1))))))"
  using assms by auto

lemma lex4_trans:
  fixes h1 h2 h3 q1 q2 q3 :: nat and t1 t2 t3 :: int and k1 k2 k3 :: "'k::linorder"
  assumes "h1 > h2 \<or> (h1 = h2 \<and> (q1 > q2 \<or> (q1 = q2 \<and> (t1 < t2 \<or> (t1 = t2 \<and> k1 < k2)))))"
    and "h2 > h3 \<or> (h2 = h3 \<and> (q2 > q3 \<or> (q2 = q3 \<and> (t2 < t3 \<or> (t2 = t3 \<and> k2 < k3)))))"
  shows "h1 > h3 \<or> (h1 = h3 \<and> (q1 > q3 \<or> (q1 = q3 \<and> (t1 < t3 \<or> (t1 = t3 \<and> k1 < k3)))))"
  using assms by auto

lemma lex4_tie:
  fixes h1 h2 q1 q2 :: nat and t1 t2 :: int and k1 k2 :: "'k::linorder"
  shows "(\<not> (h1 > h2 \<or> (h1 = h2 \<and> (q1 > q2 \<or> (q1 = q2 \<and> (t1 < t2 \<or> (t1 = t2 \<and> k1 < k2))))))
     \<and> \<not> (h2 > h1 \<or> (h2 = h1 \<and> (q2 > q1 \<or> (q2 = q1 \<and> (t2 < t1 \<or> (t2 = t1 \<and> k2 < k1)))))))
    \<longleftrightarrow> h1 = h2 \<and> q1 = q2 \<and> t1 = t2 \<and> k1 = k2"
  by auto

lemma higherPriority_iff:
  "higherPriority a b \<longleftrightarrow>
     length (Headers (GetMatch a)) > length (Headers (GetMatch b))
     \<or> (length (Headers (GetMatch a)) = length (Headers (GetMatch b))
        \<and> (length (QueryParams (GetMatch a)) > length (QueryParams (GetMatch b))
           \<or> (length (QueryParams (GetMatch a)) = length (QueryParams (GetMatch b))
              \<and> (CreationTimestamp (Source a) < CreationTimestamp (Source b)
                 \<or> (CreationTimestamp (Source a) = CreationTimestamp (Source b)
                    \<and> getResourceKey (Source a) < getResourceKey (Source b))))))"
  unfolding higherPriority_def lessObjectMeta_def Let_def
  by (cases "length (Headers (GetMatch a)) = length (Headers (GetMatch b))";
      cases "length (QueryParams (GetMatch a)) = length (QueryParams (GetMatch b))";
      cases "CreationTimestamp (Source a) = CreationTimestamp (Source b)"; simp)


lemma higherPriority_irrefl: "\<not> higherPriority a a"
  unfolding higherPriority_iff by simp

lemma higherPriority_asym: "higherPriority a b \<Longrightarrow> \<not> higherPriority b a"
  unfolding higherPriority_iff by (rule lex4_asym)

lemma higherPriority_trans:
  "higherPriority a b \<Longrightarrow> higherPriority b c \<Longrightarrow> higherPriority a c"
  unfolding higherPriority_iff by (rule lex4_trans)

lemma higherPriority_tie_iff:
  "\<not> higherPriority a b \<and> \<not> higherPriority b a \<longleftrightarrow>
     length (Headers (GetMatch a)) = length (Headers (GetMatch b))
     \<and> length (QueryParams (GetMatch a)) = length (QueryParams (GetMatch b))
     \<and> CreationTimestamp (Source a) = CreationTimestamp (Source b)
     \<and> getResourceKey (Source a) = getResourceKey (Source b)"
  unfolding higherPriority_iff by (rule lex4_tie)

lemma higherPriority_negtrans:
  assumes "\<not> higherPriority a b" and "\<not> higherPriority b c"
  shows "\<not> higherPriority a c"
proof
  assume ac: "higherPriority a c"
  show False
  proof (cases "higherPriority b a")
    case True
    then have "higherPriority b c" using ac by (rule higherPriority_trans)
    with assms show False by simp
  next
    case False
    with assms(1) have tie: "\<not> higherPriority a b \<and> \<not> higherPriority b a" by simp
    have "higherPriority b c"
      using ac tie unfolding higherPriority_tie_iff unfolding higherPriority_iff by simp
    with assms show False by simp
  qed
qed

lemma higherPriority_total:
  "getResourceKey (Source a) \<noteq> getResourceKey (Source b) \<Longrightarrow>
   higherPriority a b \<or> higherPriority b a"
  using higherPriority_tie_iff[of a b] by blast

text \<open>
  C2. \<open>higherPriority\<close> decides by four criteria in order, each applying only when
  the earlier ones tie: more header matches; more query-parameter matches; the earlier
  creation timestamp; the smaller \<open>namespace/name\<close> key in lexicographic order.
\<close>

theorem higherPriority_criteria:
  "(length (Headers (GetMatch a)) \<noteq> length (Headers (GetMatch b)) \<longrightarrow>
      higherPriority a b = (length (Headers (GetMatch a)) > length (Headers (GetMatch b))))
   \<and> (length (Headers (GetMatch a)) = length (Headers (GetMatch b))
      \<and> length (QueryParams (GetMatch a)) \<noteq> length (QueryParams (GetMatch b)) \<longrightarrow>
      higherPriority a b
        = (length (QueryParams (GetMatch a)) > length (QueryParams (GetMatch b))))
   \<and> (length (Headers (GetMatch a)) = length (Headers (GetMatch b))
      \<and> length (QueryParams (GetMatch a)) = length (QueryParams (GetMatch b))
      \<and> CreationTimestamp (Source a) \<noteq> CreationTimestamp (Source b) \<longrightarrow>
      higherPriority a b = (CreationTimestamp (Source a) < CreationTimestamp (Source b)))
   \<and> (length (Headers (GetMatch a)) = length (Headers (GetMatch b))
      \<and> length (QueryParams (GetMatch a)) = length (QueryParams (GetMatch b))
      \<and> CreationTimestamp (Source a) = CreationTimestamp (Source b) \<longrightarrow>
      higherPriority a b
        = (Namespace (Source a) @ ''/'' @ ObjectMeta.Name (Source a)
           < Namespace (Source b) @ ''/'' @ ObjectMeta.Name (Source b)))"
  unfolding higherPriority_iff getResourceKey_def by auto

theorem higherPriority_criteria_witness:
  "higherPriority
     \<lparr>Source = \<lparr>Namespace = ''a'', ObjectMeta.Name = ''x'', CreationTimestamp = 5\<rparr>,
      GetMatch = \<lparr>Headers = [(''h'', ''1'')], QueryParams = []\<rparr>\<rparr>
     \<lparr>Source = \<lparr>Namespace = ''a'', ObjectMeta.Name = ''y'', CreationTimestamp = 5\<rparr>,
      GetMatch = \<lparr>Headers = [(''g'', ''2'')], QueryParams = []\<rparr>\<rparr>
   \<and> \<not> higherPriority
     \<lparr>Source = \<lparr>Namespace = ''a'', ObjectMeta.Name = ''y'', CreationTimestamp = 5\<rparr>,
      GetMatch = \<lparr>Headers = [(''g'', ''2'')], QueryParams = []\<rparr>\<rparr>
     \<lparr>Source = \<lparr>Namespace = ''a'', ObjectMeta.Name = ''x'', CreationTimestamp = 5\<rparr>,
      GetMatch = \<lparr>Headers = [(''h'', ''1'')], QueryParams = []\<rparr>\<rparr>"
  using higherPriority_criteria
    [of "\<lparr>Source = \<lparr>Namespace = ''a'', ObjectMeta.Name = ''x'', CreationTimestamp = 5\<rparr>,
          GetMatch = \<lparr>Headers = [(''h'', ''1'')], QueryParams = []\<rparr>\<rparr>"
        "\<lparr>Source = \<lparr>Namespace = ''a'', ObjectMeta.Name = ''y'', CreationTimestamp = 5\<rparr>,
          GetMatch = \<lparr>Headers = [(''g'', ''2'')], QueryParams = []\<rparr>\<rparr>"]
    higherPriority_criteria
    [of "\<lparr>Source = \<lparr>Namespace = ''a'', ObjectMeta.Name = ''y'', CreationTimestamp = 5\<rparr>,
          GetMatch = \<lparr>Headers = [(''g'', ''2'')], QueryParams = []\<rparr>\<rparr>"
        "\<lparr>Source = \<lparr>Namespace = ''a'', ObjectMeta.Name = ''x'', CreationTimestamp = 5\<rparr>,
          GetMatch = \<lparr>Headers = [(''h'', ''1'')], QueryParams = []\<rparr>\<rparr>"]
  by simp

subsection \<open>Sorting the routes\<close>

lemma sorted_wrt_total:
  assumes "sorted_wrt (\<lambda>x y. \<not> lt y x) xs"
    and "distinct (map f xs)"
    and total: "\<And>x y. f x \<noteq> f y \<Longrightarrow> lt x y \<or> lt y x"
  shows "sorted_wrt lt xs"
  using assms(1,2)
proof (induction xs)
  case Nil
  then show ?case by simp
next
  case (Cons x xs)
  have "lt x y" if "y \<in> set xs" for y
  proof -
    from Cons.prems(2) that have "f x \<noteq> f y" by auto
    moreover from Cons.prems(1) that have "\<not> lt y x" by simp
    ultimately show ?thesis using total by blast
  qed
  with Cons show ?case by simp
qed

lemma mset_sortRoutes: "mset (sortRoutes routes) = mset routes"
  by (simp add: sortRoutes_def SliceStable_def mset_insertionSort)

lemma sorted_sortRoutes:
  "sorted_wrt (\<lambda>x y. \<not> higherPriority y x) (sortRoutes routes)"
  unfolding sortRoutes_def SliceStable_def
proof (rule sorted_insertionSort)
  show "\<not> higherPriority v u" if "higherPriority u v" for u v
    using that by (rule higherPriority_asym)
  show "\<not> higherPriority u w" if "\<not> higherPriority u v" "\<not> higherPriority v w" for u v w
    using that by (rule higherPriority_negtrans)
  show "sorted_wrt (\<lambda>a b. \<not> higherPriority a b) []"
    by simp
qed

lemma higherPriority_tie_trans:
  assumes "\<not> higherPriority a u \<and> \<not> higherPriority u a"
    and "\<not> higherPriority a v \<and> \<not> higherPriority v a"
  shows "\<not> higherPriority u v"
proof -
  have au: "length (Headers (GetMatch a)) = length (Headers (GetMatch u))"
      "length (QueryParams (GetMatch a)) = length (QueryParams (GetMatch u))"
      "CreationTimestamp (Source a) = CreationTimestamp (Source u)"
      "getResourceKey (Source a) = getResourceKey (Source u)"
    using assms(1) unfolding higherPriority_tie_iff by blast+
  have av: "length (Headers (GetMatch a)) = length (Headers (GetMatch v))"
      "length (QueryParams (GetMatch a)) = length (QueryParams (GetMatch v))"
      "CreationTimestamp (Source a) = CreationTimestamp (Source v)"
      "getResourceKey (Source a) = getResourceKey (Source v)"
    using assms(2) unfolding higherPriority_tie_iff by blast+
  have "\<not> higherPriority u v \<and> \<not> higherPriority v u"
    unfolding higherPriority_tie_iff
    using au[symmetric] av by (simp only: simp_thms)
  then show ?thesis ..
qed

lemma stable_sortRoutes:
  "filter (\<lambda>r. \<not> higherPriority a r \<and> \<not> higherPriority r a) (sortRoutes routes)
   = filter (\<lambda>r. \<not> higherPriority a r \<and> \<not> higherPriority r a) routes"
proof -
  have "filter (\<lambda>r. \<not> higherPriority a r \<and> \<not> higherPriority r a)
          (insertionSort higherPriority [] routes)
        = filter (\<lambda>r. \<not> higherPriority a r \<and> \<not> higherPriority r a) (rev [])
          @ filter (\<lambda>r. \<not> higherPriority a r \<and> \<not> higherPriority r a) routes"
    by (rule filter_insertionSort) (rule higherPriority_tie_trans)
  then show ?thesis
    by (simp add: sortRoutes_def SliceStable_def)
qed

lemma distinct_keys_sortRoutes:
  "distinct (map f (sortRoutes routes)) = distinct (map f routes)"
proof -
  have "mset (map f (sortRoutes routes)) = mset (map f routes)"
    by (simp add: mset_sortRoutes)
  then show ?thesis by (rule mset_eq_imp_distinct_iff)
qed

lemma total_sortRoutes:
  assumes "distinct (map (\<lambda>r. getResourceKey (Source r)) routes)"
  shows "sorted_wrt higherPriority (sortRoutes routes)"
proof (rule sorted_wrt_total[where f = "\<lambda>r. getResourceKey (Source r)"])
  show "sorted_wrt (\<lambda>x y. \<not> higherPriority y x) (sortRoutes routes)"
    by (rule sorted_sortRoutes)
  show "distinct (map (\<lambda>r. getResourceKey (Source r)) (sortRoutes routes))"
    using assms by (simp only: distinct_keys_sortRoutes)
  show "higherPriority x y \<or> higherPriority y x"
    if "getResourceKey (Source x) \<noteq> getResourceKey (Source y)" for x y
    using that by (rule higherPriority_total)
qed

text \<open>
  C3. \<open>higherPriority\<close> is a strict order (irreflexive, asymmetric, transitive), and on
  routes with pairwise distinct resource keys it is total: of two distinct routes exactly
  one has the higher priority, so the sorted list is strictly ordered. \<open>sortRoutes\<close>
  returns a permutation of its input in which no route is preceded by one of lower
  priority, and it is stable: the routes that the comparator does not distinguish from a
  given route keep their order in the input.
\<close>

theorem sortRoutes_strict_total_order_stable:
  "\<not> higherPriority a a
   \<and> (higherPriority a b \<longrightarrow> \<not> higherPriority b a)
   \<and> (higherPriority a b \<and> higherPriority b c \<longrightarrow> higherPriority a c)
   \<and> (distinct (map (\<lambda>r. getResourceKey (Source r)) routes) \<longrightarrow>
        (\<forall>x \<in> set routes. \<forall>y \<in> set routes.
            x \<noteq> y \<longrightarrow> higherPriority x y = (\<not> higherPriority y x))
        \<and> sorted_wrt higherPriority (sortRoutes routes))
   \<and> mset (sortRoutes routes) = mset routes
   \<and> sorted_wrt (\<lambda>x y. \<not> higherPriority y x) (sortRoutes routes)
   \<and> filter (\<lambda>r. \<not> higherPriority a r \<and> \<not> higherPriority r a) (sortRoutes routes)
       = filter (\<lambda>r. \<not> higherPriority a r \<and> \<not> higherPriority r a) routes"
proof -
  have exactly_one: "higherPriority x y = (\<not> higherPriority y x)"
    if d: "distinct (map (\<lambda>r. getResourceKey (Source r)) routes)"
      and "x \<in> set routes" "y \<in> set routes" "x \<noteq> y" for x y
  proof -
    have "inj_on (\<lambda>r. getResourceKey (Source r)) (set routes)"
      using d by (simp add: distinct_map)
    with that(2-4) have "getResourceKey (Source x) \<noteq> getResourceKey (Source y)"
      by (auto dest: inj_onD)
    then have "higherPriority x y \<or> higherPriority y x"
      by (rule higherPriority_total)
    then show ?thesis
      using higherPriority_asym by blast
  qed
  show ?thesis
  proof (intro conjI impI ballI)
    show "\<not> higherPriority a a"
      by (rule higherPriority_irrefl)
    show "\<not> higherPriority b a" if "higherPriority a b"
      using that by (rule higherPriority_asym)
    show "higherPriority a c" if "higherPriority a b \<and> higherPriority b c"
      using that higherPriority_trans by blast
    show "higherPriority x y = (\<not> higherPriority y x)"
      if "distinct (map (\<lambda>r. getResourceKey (Source r)) routes)"
        and "x \<in> set routes" "y \<in> set routes" "x \<noteq> y" for x y
      using that by (rule exactly_one)
    show "sorted_wrt higherPriority (sortRoutes routes)"
      if "distinct (map (\<lambda>r. getResourceKey (Source r)) routes)"
      using that by (rule total_sortRoutes)
    show "mset (sortRoutes routes) = mset routes"
      by (rule mset_sortRoutes)
    show "sorted_wrt (\<lambda>x y. \<not> higherPriority y x) (sortRoutes routes)"
      by (rule sorted_sortRoutes)
    show "filter (\<lambda>r. \<not> higherPriority a r \<and> \<not> higherPriority r a) (sortRoutes routes)
       = filter (\<lambda>r. \<not> higherPriority a r \<and> \<not> higherPriority r a) routes"
      by (rule stable_sortRoutes)
  qed
qed


theorem sortRoutes_strict_total_order_stable_witness:
  "distinct (map (\<lambda>r. getResourceKey (Source r))
     [\<lparr>Source = \<lparr>Namespace = ''a'', ObjectMeta.Name = ''y'', CreationTimestamp = 5\<rparr>, GetMatch = \<lparr>Headers = [], QueryParams = []\<rparr>\<rparr>,
      \<lparr>Source = \<lparr>Namespace = ''a'', ObjectMeta.Name = ''x'', CreationTimestamp = 5\<rparr>, GetMatch = \<lparr>Headers = [], QueryParams = []\<rparr>\<rparr>,
      \<lparr>Source = \<lparr>Namespace = ''b'', ObjectMeta.Name = ''z'', CreationTimestamp = 9\<rparr>, GetMatch = \<lparr>Headers = [(''version'', ''2'')], QueryParams = []\<rparr>\<rparr>])
   \<and> sortRoutes
     [\<lparr>Source = \<lparr>Namespace = ''a'', ObjectMeta.Name = ''y'', CreationTimestamp = 5\<rparr>, GetMatch = \<lparr>Headers = [], QueryParams = []\<rparr>\<rparr>,
      \<lparr>Source = \<lparr>Namespace = ''a'', ObjectMeta.Name = ''x'', CreationTimestamp = 5\<rparr>, GetMatch = \<lparr>Headers = [], QueryParams = []\<rparr>\<rparr>,
      \<lparr>Source = \<lparr>Namespace = ''b'', ObjectMeta.Name = ''z'', CreationTimestamp = 9\<rparr>, GetMatch = \<lparr>Headers = [(''version'', ''2'')], QueryParams = []\<rparr>\<rparr>]
     = [\<lparr>Source = \<lparr>Namespace = ''b'', ObjectMeta.Name = ''z'', CreationTimestamp = 9\<rparr>, GetMatch = \<lparr>Headers = [(''version'', ''2'')], QueryParams = []\<rparr>\<rparr>,
      \<lparr>Source = \<lparr>Namespace = ''a'', ObjectMeta.Name = ''x'', CreationTimestamp = 5\<rparr>, GetMatch = \<lparr>Headers = [], QueryParams = []\<rparr>\<rparr>,
      \<lparr>Source = \<lparr>Namespace = ''a'', ObjectMeta.Name = ''y'', CreationTimestamp = 5\<rparr>, GetMatch = \<lparr>Headers = [], QueryParams = []\<rparr>\<rparr>]
   \<and> sorted_wrt higherPriority (sortRoutes
     [\<lparr>Source = \<lparr>Namespace = ''a'', ObjectMeta.Name = ''y'', CreationTimestamp = 5\<rparr>, GetMatch = \<lparr>Headers = [], QueryParams = []\<rparr>\<rparr>,
      \<lparr>Source = \<lparr>Namespace = ''a'', ObjectMeta.Name = ''x'', CreationTimestamp = 5\<rparr>, GetMatch = \<lparr>Headers = [], QueryParams = []\<rparr>\<rparr>,
      \<lparr>Source = \<lparr>Namespace = ''b'', ObjectMeta.Name = ''z'', CreationTimestamp = 9\<rparr>, GetMatch = \<lparr>Headers = [(''version'', ''2'')], QueryParams = []\<rparr>\<rparr>])"
  (is "distinct (map ?k ?L) \<and> _ \<and> _")
proof (intro conjI)
  show d: "distinct (map ?k ?L)"
    by (simp add: getResourceKey_def)
  show "sortRoutes ?L = [\<lparr>Source = \<lparr>Namespace = ''b'', ObjectMeta.Name = ''z'', CreationTimestamp = 9\<rparr>, GetMatch = \<lparr>Headers = [(''version'', ''2'')], QueryParams = []\<rparr>\<rparr>,
      \<lparr>Source = \<lparr>Namespace = ''a'', ObjectMeta.Name = ''x'', CreationTimestamp = 5\<rparr>, GetMatch = \<lparr>Headers = [], QueryParams = []\<rparr>\<rparr>,
      \<lparr>Source = \<lparr>Namespace = ''a'', ObjectMeta.Name = ''y'', CreationTimestamp = 5\<rparr>, GetMatch = \<lparr>Headers = [], QueryParams = []\<rparr>\<rparr>]"
    by (simp add: sortRoutes_def SliceStable_def higherPriority_def lessObjectMeta_def
        getResourceKey_def)
  have "distinct (map ?k ?L) \<longrightarrow>
        (\<forall>x \<in> set ?L. \<forall>y \<in> set ?L. x \<noteq> y \<longrightarrow> higherPriority x y = (\<not> higherPriority y x))
        \<and> sorted_wrt higherPriority (sortRoutes ?L)"
    by (rule sortRoutes_strict_total_order_stable
        [of "hd ?L" "hd ?L" "hd ?L" ?L, THEN conjunct2, THEN conjunct2, THEN conjunct2,
          THEN conjunct1])
  then show "sorted_wrt higherPriority (sortRoutes ?L)"
    using d by (rule mp[THEN conjunct2])
qed

section \<open>Properties of the size merge\<close>

lemma isDigitByte_iff: "isDigitByte c \<longleftrightarrow> 48 \<le> (of_char c :: nat) \<and> (of_char c :: nat) \<le> 57"
  by (simp add: isDigitByte_def less_eq_char_def)

lemma unit_takeWhile:
  "takeWhile isDigitByte '''' = []" "takeWhile isDigitByte ''k'' = []"
  "takeWhile isDigitByte ''m'' = []" "takeWhile isDigitByte ''g'' = []"
  by (simp_all add: isDigitByte_iff)

lemma unit_dropWhile:
  "dropWhile isDigitByte '''' = []" "dropWhile isDigitByte ''k'' = ''k''"
  "dropWhile isDigitByte ''m'' = ''m''" "dropWhile isDigitByte ''g'' = ''g''"
  by (simp_all add: isDigitByte_iff)

lemma unit_not_digit:
  assumes "u \<in> {'''', ''k'', ''m'', ''g''}"
  shows "takeWhile isDigitByte u = [] \<and> dropWhile isDigitByte u = u"
proof -
  from assms consider "u = ''''" | "u = ''k''" | "u = ''m''" | "u = ''g''" by blast
  then show ?thesis
    by cases (simp_all only: unit_takeWhile unit_dropWhile)
qed

lemma FindStringSubmatch_append:
  assumes "1 \<le> length ds" "length ds \<le> 4" "\<forall>c \<in> set ds. isDigitByte c"
    and "u \<in> {'''', ''k'', ''m'', ''g''}"
  shows "FindStringSubmatch (ds @ u) = [ds @ u, ds, u]"
proof -
  have t: "takeWhile isDigitByte (ds @ u) = ds"
    using assms(3) unit_not_digit[OF assms(4)] by simp
  have d: "dropWhile isDigitByte (ds @ u) = u"
    using assms(3) unit_not_digit[OF assms(4)] by simp
  have m: "u \<in> set ['''', ''k'', ''m'', ''g'']" using assms(4) by simp
  show ?thesis
    unfolding FindStringSubmatch_def Let_def t d using assms(1,2) m by simp
qed


lemma sizeGrammar_iff: "sizeGrammar s \<longleftrightarrow> FindStringSubmatch s \<noteq> []"
proof
  assume "sizeGrammar s"
  then obtain n where n: "n \<in> set [1, 2, 3, 4]" "n \<le> length s"
      "list_all isDigitByte (take n s)" "drop n s \<in> set ['''', ''k'', ''m'', ''g'']"
    unfolding sizeGrammar_def by blast
  have l: "length (take n s) = n" using n(2) by simp
  have a: "1 \<le> length (take n s)" "length (take n s) \<le> 4"
    unfolding l using n(1) by auto
  have b: "\<forall>c \<in> set (take n s). isDigitByte c" using n(3) by (simp add: list_all_iff)
  have c: "drop n s \<in> {'''', ''k'', ''m'', ''g''}" using n(4) by simp
  have "FindStringSubmatch (take n s @ drop n s) = [take n s @ drop n s, take n s, drop n s]"
    using a b c by (rule FindStringSubmatch_append)
  then show "FindStringSubmatch s \<noteq> []" by simp
next
  assume m: "FindStringSubmatch s \<noteq> []"
  let ?ds = "takeWhile isDigitByte s" and ?u = "dropWhile isDigitByte s"
  have c: "1 \<le> length ?ds \<and> length ?ds \<le> 4 \<and> ?u \<in> set ['''', ''k'', ''m'', ''g'']"
    using m unfolding FindStringSubmatch_def Let_def by (simp split: if_splits)
  have t: "take (length ?ds) s = ?ds" by (simp add: takeWhile_eq_take[symmetric])
  have d: "drop (length ?ds) s = ?u" by (simp add: dropWhile_eq_drop[symmetric])
  have n: "length ?ds \<in> set [1, 2, 3, 4]" using c by auto
  have "length ?ds \<le> length s" by (rule length_takeWhile_le)
  moreover have "list_all isDigitByte (take (length ?ds) s)"
    unfolding t by (auto simp add: list_all_iff dest: set_takeWhileD)
  moreover have "drop (length ?ds) s \<in> set ['''', ''k'', ''m'', ''g'']"
    unfolding d using c by simp
  ultimately have "length ?ds \<le> length s \<and> list_all isDigitByte (take (length ?ds) s)
      \<and> drop (length ?ds) s \<in> set ['''', ''k'', ''m'', ''g'']" by simp
  then show "sizeGrammar s"
    unfolding sizeGrammar_def using n by (rule bexI)
qed
lemma decimal_bound:
  "\<forall>c \<in> set ds. isDigitByte c \<Longrightarrow>
   foldl (\<lambda>n c. 10 * n + (of_char c - 48)) (n::nat) ds + 1 \<le> (n + 1) * 10 ^ length ds"
proof (induction ds arbitrary: n)
  case Nil
  show ?case by simp
next
  case (Cons c ds)
  have "isDigitByte c" using Cons.prems by simp
  then have "(of_char c :: nat) \<le> 57" by (simp add: isDigitByte_iff)
  then have d: "10 * n + ((of_char c :: nat) - 48) + 1 \<le> 10 * (n + 1)" by arith
  have p: "\<forall>c \<in> set ds. isDigitByte c" using Cons.prems by simp
  have "foldl (\<lambda>n c. 10 * n + (of_char c - 48)) (10 * n + (of_char c - 48)) ds + 1
        \<le> (10 * n + (of_char c - 48) + 1) * 10 ^ length ds"
    using p by (rule Cons.IH)
  also have "\<dots> \<le> (10 * (n + 1)) * 10 ^ length ds"
    using d by (rule mult_right_mono) simp
  also have "\<dots> = (n + 1) * 10 ^ length (c # ds)" by (simp add: algebra_simps)
  finally show ?case by simp
qed

lemma decimal_less: "\<forall>c \<in> set ds. isDigitByte c \<Longrightarrow> decimal ds < 10 ^ length ds"
  using decimal_bound[of ds 0] by (simp add: decimal_def)


lemma ParseInt_digits:
  assumes "1 \<le> length ds" "length ds \<le> 4" "\<forall>c \<in> set ds. isDigitByte c"
  shows "ParseInt ds = Inr (int (decimal ds))"
proof -
  from assms(1) obtain c cs where ds: "ds = c # cs" by (cases ds) auto
  with assms(3) have "isDigitByte c" by simp
  then have sign: "hd ds \<noteq> CHR ''-''" "hd ds \<noteq> CHR ''+''"
    unfolding ds by (auto simp add: isDigitByte_iff)
  have ne: "ds \<noteq> []" using ds by simp
  have "decimal ds < 10 ^ length ds" using assms(3) by (rule decimal_less)
  also have "(10::nat) ^ length ds \<le> 10 ^ 4" using assms(2) by (intro power_increasing) simp_all
  finally have "int (decimal ds) < 10000" by simp
  then have range: "\<not> (int (decimal ds) < - (2 ^ 63) \<or> 2 ^ 63 - 1 < int (decimal ds))" by simp
  have all: "list_all isDigitByte ds" using assms(3) by (simp add: list_all_iff)
  show ?thesis
    unfolding ParseInt_def Let_def using sign range ne all by (simp only: if_False if_True simp_thms)
qed


lemma parseSizeToBytes_append:
  assumes "1 \<le> length ds" "length ds \<le> 4" "\<forall>c \<in> set ds. isDigitByte c"
    and "u \<in> {'''', ''k'', ''m'', ''g''}"
  shows "parseSizeToBytes (ds @ u) =
           Inr (int (decimal ds) *
                (if u = ''k'' then 1024 else if u = ''m'' then 1024 * 1024
                 else if u = ''g'' then 1024 * 1024 * 1024 else 1))"
proof -
  have m: "FindStringSubmatch (ds @ u) = [ds @ u, ds, u]"
    using assms by (rule FindStringSubmatch_append)
  have p: "ParseInt ds = Inr (int (decimal ds))"
    using assms(1-3) by (rule ParseInt_digits)
  from assms(4) consider "u = ''''" | "u = ''k''" | "u = ''m''" | "u = ''g''" by blast
  then show ?thesis
  proof cases
    case 1
    show ?thesis unfolding parseSizeToBytes_def Let_def m unfolding 1 using p
      by (simp add: sizeMultipliers_def ToLower_def)
  next
    case 2
    show ?thesis unfolding parseSizeToBytes_def Let_def m unfolding 2 using p
      by (simp add: sizeMultipliers_def ToLower_def)
  next
    case 3
    show ?thesis unfolding parseSizeToBytes_def Let_def m unfolding 3 using p
      by (simp add: sizeMultipliers_def ToLower_def)
  next
    case 4
    show ?thesis unfolding parseSizeToBytes_def Let_def m unfolding 4 using p
      by (simp add: sizeMultipliers_def ToLower_def)
  qed
qed

lemma parseSizeToBytes_reject:
  assumes "\<not> sizeGrammar s"
  shows "parseSizeToBytes s = Inl (InvalidSizeFormat s)"
proof -
  have "FindStringSubmatch s = []" using assms by (simp add: sizeGrammar_iff)
  then show ?thesis unfolding parseSizeToBytes_def Let_def by simp
qed

lemma parseSizeToBytes_accept:
  assumes "sizeGrammar s"
  shows "\<exists>b. parseSizeToBytes s = Inr b"
proof -
  from assms obtain n where n: "n \<in> set [1, 2, 3, 4]" "n \<le> length s"
      "list_all isDigitByte (take n s)" "drop n s \<in> set ['''', ''k'', ''m'', ''g'']"
    unfolding sizeGrammar_def by blast
  have l: "length (take n s) = n" using n(2) by simp
  have a: "1 \<le> length (take n s)" "length (take n s) \<le> 4"
    unfolding l using n(1) by auto
  have b: "\<forall>c \<in> set (take n s). isDigitByte c" using n(3) by (simp add: list_all_iff)
  have c: "drop n s \<in> {'''', ''k'', ''m'', ''g''}" using n(4) by simp
  have "\<exists>b. parseSizeToBytes (take n s @ drop n s) = Inr b"
    unfolding parseSizeToBytes_append[OF a b c] by (rule exI) (rule refl)
  then show ?thesis by simp
qed

lemma sizeGrammar_nonempty: "sizeGrammar s \<Longrightarrow> s \<noteq> ''''"
  unfolding sizeGrammar_def by auto

lemma getMaxSize_grammar:
  assumes "sizeGrammar s1" "sizeGrammar s2"
  shows "\<exists>b1 b2. parseSizeToBytes s1 = Inr b1 \<and> parseSizeToBytes s2 = Inr b2 \<and>
           getMaxSize s1 s2 = Returns (if b1 > b2 then s1 else s2)"
proof -
  from assms(1) obtain b1 where b1: "parseSizeToBytes s1 = Inr b1"
    using parseSizeToBytes_accept by blast
  from assms(2) obtain b2 where b2: "parseSizeToBytes s2 = Inr b2"
    using parseSizeToBytes_accept by blast
  have ne: "s1 \<noteq> ''''" "s2 \<noteq> ''''"
    using assms by (simp_all add: sizeGrammar_nonempty)
  have "getMaxSize s1 s2 = Returns (if b1 > b2 then s1 else s2)"
    unfolding getMaxSize_def using ne b1 b2 by simp
  with b1 b2 show ?thesis by blast
qed

lemma getMaxSize_max:
  assumes "sizeGrammar s1" "sizeGrammar s2"
  shows "\<exists>r b1 b2. getMaxSize s1 s2 = Returns r \<and> (r = s1 \<or> r = s2) \<and>
           parseSizeToBytes s1 = Inr b1 \<and> parseSizeToBytes s2 = Inr b2 \<and>
           parseSizeToBytes r = Inr (max b1 b2)"
proof -
  from getMaxSize_grammar[OF assms] obtain b1 b2 where
    b: "parseSizeToBytes s1 = Inr b1" "parseSizeToBytes s2 = Inr b2"
    and r: "getMaxSize s1 s2 = Returns (if b1 > b2 then s1 else s2)" by blast
  show ?thesis
  proof (cases "b1 > b2")
    case True
    then have "max b1 b2 = b1" by simp
    with True b r show ?thesis by auto
  next
    case False
    then have "max b1 b2 = b2" by simp
    with False b r show ?thesis by auto
  qed
qed

lemma getMaxSize_panics_first:
  assumes "s1 \<noteq> ''''" "s2 \<noteq> ''''" "\<not> sizeGrammar s1"
  shows "getMaxSize s1 s2 = Panics (PanicError (InvalidSizeFormat s1))"
  unfolding getMaxSize_def using assms(1,2) parseSizeToBytes_reject[OF assms(3)] by simp

lemma getMaxSize_panics_second:
  assumes "sizeGrammar s1" "s2 \<noteq> ''''" "\<not> sizeGrammar s2"
  shows "getMaxSize s1 s2 = Panics (PanicError (InvalidSizeFormat s2))"
proof -
  from assms(1) obtain b1 where b1: "parseSizeToBytes s1 = Inr b1"
    using parseSizeToBytes_accept by blast
  have ne: "s1 \<noteq> ''''" using assms(1) by (rule sizeGrammar_nonempty)
  show ?thesis
    unfolding getMaxSize_def using ne assms(2) b1 parseSizeToBytes_reject[OF assms(3)] by simp
qed

lemma getMaxSize_empty: "getMaxSize '''' s = Returns s" "getMaxSize s '''' = Returns s"
  by (simp_all add: getMaxSize_def)

lemmas size_eval = parseSizeToBytes_def FindStringSubmatch_def isDigitByte_def ParseInt_def
  decimal_def ToLower_def sizeMultipliers_def Let_def

lemmas byUnit_eval = getMaxSize_byUnit_def isDigit_def Atoi_def ParseInt_def isDigitByte_def
  decimal_def Let_def

text \<open>
  C1. The merge function of the data-plane generator (\<open>getMaxSize_byUnit\<close>, the
  \<open>getMaxSize\<close> that compares unit letters) does not return the literal with the greater
  byte count: for \<open>4096\<close> (4096 bytes) and \<open>1k\<close> (1024 bytes) it returns \<open>1k\<close>, and for
  \<open>11\<close> and \<open>19\<close> it returns \<open>11\<close>. The merge function that parses both literals
  (\<open>getMaxSize\<close>) returns \<open>4096\<close> and \<open>19\<close> there.
\<close>

theorem getMaxSize_byUnit_not_maximum:
  "parseSizeToBytes ''4096'' = Inr 4096 \<and> parseSizeToBytes ''1k'' = Inr 1024 \<and>
   getMaxSize_byUnit ''4096'' (Some ''1k'') = Returns ''1k'' \<and>
   getMaxSize ''4096'' ''1k'' = Returns ''4096'' \<and>
   parseSizeToBytes ''11'' = Inr 11 \<and> parseSizeToBytes ''19'' = Inr 19 \<and>
   getMaxSize_byUnit ''11'' (Some ''19'') = Returns ''11'' \<and>
   getMaxSize ''11'' ''19'' = Returns ''19''"
proof -
  have p: "parseSizeToBytes ''4096'' = Inr 4096" "parseSizeToBytes ''1k'' = Inr 1024"
    "parseSizeToBytes ''11'' = Inr 11" "parseSizeToBytes ''19'' = Inr 19"
    by (simp_all add: size_eval)
  have u: "getMaxSize_byUnit ''4096'' (Some ''1k'') = Returns ''1k''"
    "getMaxSize_byUnit ''11'' (Some ''19'') = Returns ''11''"
    by (simp_all add: byUnit_eval)
  have g: "getMaxSize ''4096'' ''1k'' = Returns ''4096''" "getMaxSize ''11'' ''19'' = Returns ''19''"
    by (simp_all add: getMaxSize_def p)
  from p u g show ?thesis by simp
qed

text \<open>
  C4, as stated, fails: a literal with five digits is outside the grammar, and merging it
  with a well-formed literal panics with the parse error instead of returning an error.
\<close>

theorem getMaxSize_malformed_panics:
  "\<not> sizeGrammar ''12345'' \<and>
   getMaxSize ''1k'' ''12345'' = Panics (PanicError (InvalidSizeFormat ''12345''))"
proof -
  have "\<not> sizeGrammar ''12345''"
    by (simp add: sizeGrammar_def isDigitByte_def)
  moreover have "parseSizeToBytes ''12345'' = Inl (InvalidSizeFormat ''12345'')"
    "parseSizeToBytes ''1k'' = Inr 1024"
    by (simp_all add: size_eval)
  then have "getMaxSize ''1k'' ''12345'' = Panics (PanicError (InvalidSizeFormat ''12345''))"
    by (simp add: getMaxSize_def)
  ultimately show ?thesis by simp
qed

text \<open>
  C4, amended. \<open>parseSizeToBytes\<close> rejects every literal outside the grammar with the
  typed error \<open>InvalidSizeFormat\<close> carrying the literal, and never with a default value.
  \<open>getMaxSize\<close> has no error result: given two non-empty literals it panics with that
  error for the first literal outside the grammar; given an empty literal it returns the
  other literal as it is.
\<close>

theorem getMaxSize_malformed:
  "(\<not> sizeGrammar s \<longrightarrow> parseSizeToBytes s = Inl (InvalidSizeFormat s)) \<and>
   (s1 \<noteq> '''' \<and> s2 \<noteq> '''' \<and> \<not> sizeGrammar s1 \<longrightarrow>
      getMaxSize s1 s2 = Panics (PanicError (InvalidSizeFormat s1))) \<and>
   (sizeGrammar t1 \<and> t2 \<noteq> '''' \<and> \<not> sizeGrammar t2 \<longrightarrow>
      getMaxSize t1 t2 = Panics (PanicError (InvalidSizeFormat t2))) \<and>
   getMaxSize '''' s = Returns s \<and> getMaxSize s '''' = Returns s"
proof (intro conjI impI)
  assume "\<not> sizeGrammar s"
  then show "parseSizeToBytes s = Inl (InvalidSizeFormat s)" by (rule parseSizeToBytes_reject)
next
  assume "s1 \<noteq> '''' \<and> s2 \<noteq> '''' \<and> \<not> sizeGrammar s1"
  then show "getMaxSize s1 s2 = Panics (PanicError (InvalidSizeFormat s1))"
    by (simp add: getMaxSize_panics_first)
next
  assume "sizeGrammar t1 \<and> t2 \<noteq> '''' \<and> \<not> sizeGrammar t2"
  then show "getMaxSize t1 t2 = Panics (PanicError (InvalidSizeFormat t2))"
    by (simp add: getMaxSize_panics_second)
next
  show "getMaxSize '''' s = Returns s" by (rule getMaxSize_empty)
next
  show "getMaxSize s '''' = Returns s" by (rule getMaxSize_empty)
qed

theorem getMaxSize_malformed_witness:
  "parseSizeToBytes ''1K'' = Inl (InvalidSizeFormat ''1K'') \<and>
   getMaxSize ''10x'' ''2m'' = Panics (PanicError (InvalidSizeFormat ''10x'')) \<and>
   getMaxSize ''2m'' ''12345'' = Panics (PanicError (InvalidSizeFormat ''12345'')) \<and>
   getMaxSize '''' ''1K'' = Returns ''1K'' \<and> getMaxSize ''1K'' '''' = Returns ''1K''"
proof -
  have g: "\<not> sizeGrammar ''1K''" "\<not> sizeGrammar ''10x''" "\<not> sizeGrammar ''12345''"
    "sizeGrammar ''2m''"
    by (simp_all add: sizeGrammar_def isDigitByte_def)
  show ?thesis
    using getMaxSize_malformed[of "''1K''" "''10x''" "''2m''" "''2m''" "''12345''"] g
    by simp
qed

end
